theory Spec2Isabelle
  imports Main "HOL-Library.Word" "HOL-Library.Char_ord" "HOL-Library.List_Lexorder"
begin

section \<open>Task status taxonomy\<close>

text \<open>
  Modelled from the spec: the module \<^verbatim>\<open>causaliq_workflow/status.py\<close> that declares the
  enumeration \<^verbatim>\<open>TaskStatus\<close> and its four properties is exercised by
  \<^verbatim>\<open>tests/unit/test_status.py\<close> but is not among the source files. The ten members and
  the member sets of the four predicates are those of the spec's data model (section 3),
  which are also the sets the unit tests enumerate.
\<close>

datatype TaskStatus =
    EXECUTES | WOULD_EXECUTE | SKIPS | WOULD_SKIP
  | IDENTICAL | DIFFERENT
  | INVALID_USES | INVALID_PARAMETER | FAILED | TIMED_OUT

text \<open>Modelled from the spec: \<^verbatim>\<open>is_success\<close>, member of the six non-error outcomes.\<close>

fun is_success :: "TaskStatus \<Rightarrow> bool" where
  "is_success EXECUTES = True"
| "is_success WOULD_EXECUTE = True"
| "is_success SKIPS = True"
| "is_success WOULD_SKIP = True"
| "is_success IDENTICAL = True"
| "is_success DIFFERENT = True"
| "is_success _ = False"

text \<open>Modelled from the spec: \<^verbatim>\<open>is_error\<close>, member of the four values of the error tag.\<close>

fun is_error :: "TaskStatus \<Rightarrow> bool" where
  "is_error INVALID_USES = True"
| "is_error INVALID_PARAMETER = True"
| "is_error FAILED = True"
| "is_error TIMED_OUT = True"
| "is_error _ = False"

text \<open>Modelled from the spec: \<^verbatim>\<open>is_execution\<close>, the outcomes where an action actually ran.\<close>

fun is_execution :: "TaskStatus \<Rightarrow> bool" where
  "is_execution EXECUTES = True"
| "is_execution IDENTICAL = True"
| "is_execution DIFFERENT = True"
| "is_execution _ = False"

text \<open>Modelled from the spec: \<^verbatim>\<open>is_dry_run\<close>, the two dry-run outcomes.\<close>

fun is_dry_run :: "TaskStatus \<Rightarrow> bool" where
  "is_dry_run WOULD_EXECUTE = True"
| "is_dry_run WOULD_SKIP = True"
| "is_dry_run _ = False"

text \<open>The members in declaration order, as iterating the enumeration yields them.\<close>

definition all_statuses :: "TaskStatus list" where
  "all_statuses =
     [EXECUTES, WOULD_EXECUTE, SKIPS, WOULD_SKIP, IDENTICAL, DIFFERENT,
      INVALID_USES, INVALID_PARAMETER, FAILED, TIMED_OUT]"

section \<open>Documents and exceptions\<close>

text \<open>
  A workflow document is what the loader produces from YAML: scalars, strings, sequences
  and mappings. A Python \<^verbatim>\<open>dict\<close> is an association list in insertion order whose keys
  are pairwise different. The payload of a float is its IEEE-754 bit pattern; nothing
  below inspects it.
\<close>

datatype doc =
    DNone
  | DBool bool
  | DInt int
  | DFloat "64 word"
  | DStr string
  | DList "doc list"
  | DDict "(string \<times> doc) list"

text \<open>
  The exceptions the code raises or lets through: the instances of \<^verbatim>\<open>Exception\<close>, which
  are what a handler \<^verbatim>\<open>except Exception\<close> catches. Each carries the text that
  \<^verbatim>\<open>str(e)\<close> yields. \<^verbatim>\<open>WorkflowValidationError\<close> is raised by the collaborators of
  \<^verbatim>\<open>causaliq_workflow.schema\<close>; \<^verbatim>\<open>TypeError\<close>, \<^verbatim>\<open>AttributeError\<close> and \<^verbatim>\<open>RuntimeError\<close>
  are the interpreter's; \<open>OtherError\<close> stands for an instance of any other class, given by
  the name of the class and the text.
\<close>

datatype exn =
    WorkflowExecutionError string
  | WorkflowValidationError string
  | TypeError string
  | AttributeError string
  | RuntimeError string
  | OtherError string string

fun exn_str :: "exn \<Rightarrow> string" where
  "exn_str (WorkflowExecutionError m) = m"
| "exn_str (WorkflowValidationError m) = m"
| "exn_str (TypeError m) = m"
| "exn_str (AttributeError m) = m"
| "exn_str (RuntimeError m) = m"
| "exn_str (OtherError cls m) = m"

text \<open>\<^verbatim>\<open>type(v).__name__\<close>, as the interpreter's error messages print it.\<close>

fun type_name :: "doc \<Rightarrow> string" where
  "type_name DNone = ''NoneType''"
| "type_name (DBool b) = ''bool''"
| "type_name (DInt i) = ''int''"
| "type_name (DFloat f) = ''float''"
| "type_name (DStr s) = ''str''"
| "type_name (DList xs) = ''list''"
| "type_name (DDict kvs) = ''dict''"

section \<open>Matrix expansion\<close>

text \<open>
  \<^verbatim>\<open>itertools.product(*value_lists)\<close> first turns every argument into a tuple, which
  iterates it: a list yields its elements, a string its characters, a mapping its keys,
  and any other value raises \<^verbatim>\<open>TypeError\<close>.
\<close>

fun py_tuple :: "doc \<Rightarrow> exn + doc list" where
  "py_tuple (DList xs) = Inr xs"
| "py_tuple (DStr s) = Inr (map (\<lambda>c. DStr [c]) s)"
| "py_tuple (DDict kvs) = Inr (map (\<lambda>kv. DStr (fst kv)) kvs)"
| "py_tuple v = Inl (TypeError ([CHR 0x27] @ type_name v @ ''' object is not iterable''))"

text \<open>\<^verbatim>\<open>pools = [tuple(pool) for pool in iterables]\<close>: the first argument that fails raises.\<close>

fun make_pools :: "doc list \<Rightarrow> exn + doc list list" where
  "make_pools [] = Inr []"
| "make_pools (v # vs) =
     (case py_tuple v of
        Inl e \<Rightarrow> Inl e
      | Inr pool \<Rightarrow> (case make_pools vs of Inl e \<Rightarrow> Inl e | Inr ps \<Rightarrow> Inr (pool # ps)))"

text \<open>
  One round of the product, as the library documents it:
  \<^verbatim>\<open>result = [x + [y] for x in result for y in pool]\<close>.
\<close>

definition product_step :: "'a list list \<Rightarrow> 'a list \<Rightarrow> 'a list list" where
  "product_step result pool = concat (map (\<lambda>x. map (\<lambda>y. x @ [y]) pool) result)"

text \<open>
  \<^verbatim>\<open>list(itertools.product(*iterables))\<close>: starting from \<^verbatim>\<open>result = [[]]\<close>, one round per
  pool, in the order of the arguments.
\<close>

definition itertools_product :: "doc list \<Rightarrow> exn + doc list list" where
  "itertools_product iterables =
     (case make_pools iterables of
        Inl e \<Rightarrow> Inl e
      | Inr ps \<Rightarrow> Inr (foldl product_step [[]] ps))"

text \<open>
  \<^verbatim>\<open>d[k] = v\<close> on an insertion-ordered dict: a key already present keeps its place and
  takes the new value, a new key goes to the end.
\<close>

fun dict_set :: "('k \<times> 'v) list \<Rightarrow> 'k \<Rightarrow> 'v \<Rightarrow> ('k \<times> 'v) list" where
  "dict_set [] k v = [(k, v)]"
| "dict_set ((k', v') # d) k v =
     (if k' = k then (k', v) # d else (k', v') # dict_set d k v)"

text \<open>\<^verbatim>\<open>dict(pairs)\<close>: the pairs are stored one after the other into an empty dict.\<close>

definition py_dict :: "('k \<times> 'v) list \<Rightarrow> ('k \<times> 'v) list" where
  "py_dict pairs = foldl (\<lambda>d kv. dict_set d (fst kv) (snd kv)) [] pairs"

text \<open>
  \<^verbatim>\<open>WorkflowExecutor.expand_matrix\<close>. An empty matrix gives the single empty job. Otherwise
  the product of the value lists is taken and every combination is zipped with the variable
  names; any exception of the \<^verbatim>\<open>try\<close> block is caught and raised again as
  \<^verbatim>\<open>WorkflowExecutionError\<close> with the text \<^verbatim>\<open>Matrix expansion failed: {e}\<close>.
\<close>

definition expand_matrix :: "(string \<times> doc) list \<Rightarrow> exn + (string \<times> doc) list list" where
  "expand_matrix matrix =
     (if matrix = [] then Inr [[]]
      else
        (let variables = map fst matrix;
             value_lists = map snd matrix
         in case itertools_product value_lists of
              Inl e \<Rightarrow> Inl (WorkflowExecutionError (''Matrix expansion failed: '' @ exn_str e))
            | Inr combinations \<Rightarrow>
                Inr (map (\<lambda>combination. py_dict (zip variables combination)) combinations)))"

text \<open>
  A matrix as its annotation \<^verbatim>\<open>Dict[str, List[Any]]\<close> types it: every value is a list.
\<close>

definition matrix_of :: "(string \<times> doc list) list \<Rightarrow> (string \<times> doc) list" where
  "matrix_of tm = map (\<lambda>kv. (fst kv, DList (snd kv))) tm"

text \<open>
  The name \<^verbatim>\<open>itertools.product\<close> is looked up when \<^verbatim>\<open>expand_matrix\<close> runs, and the unit
  tests bind it to a callable that raises. So the same body is given once more with the
  callable as a parameter: it takes the value lists and the state of the world it may read
  and change, and returns its result, or the exception it raises, with the new state.
  Nothing else in the body touches that state.
\<close>

type_synonym 's product_fn = "doc list \<Rightarrow> 's \<Rightarrow> (exn + doc list list) \<times> 's"

definition expand_matrix_with ::
    "'s product_fn \<Rightarrow> (string \<times> doc) list \<Rightarrow> 's \<Rightarrow> (exn + (string \<times> doc) list list) \<times> 's" where
  "expand_matrix_with product matrix s =
     (if matrix = [] then (Inr [[]], s)
      else
        (let variables = map fst matrix;
             value_lists = map snd matrix
         in case product value_lists s of
              (Inl e, s') \<Rightarrow>
                (Inl (WorkflowExecutionError (''Matrix expansion failed: '' @ exn_str e)), s')
            | (Inr combinations, s') \<Rightarrow>
                (Inr (map (\<lambda>combination. py_dict (zip variables combination)) combinations),
                 s')))"

text \<open>The library's own product: it reads no state and changes none.\<close>

definition library_product :: "'s product_fn" where
  "library_product iterables s = (itertools_product iterables, s)"

text \<open>A callable together with the number of times it has been called.\<close>

definition counting :: "'s product_fn \<Rightarrow> (nat \<times> 's) product_fn" where
  "counting product iterables ns =
     (case product iterables (snd ns) of (r, s') \<Rightarrow> (r, (Suc (fst ns), s')))"

text \<open>
  The callable of the unit test \<^verbatim>\<open>test_expand_matrix_exception_handling\<close>, made to fail
  on its first call only: a second call would return the product.
\<close>

definition flaky_product :: "nat product_fn" where
  "flaky_product iterables n =
     (if n = 0 then (Inl (RuntimeError ''Unexpected error in itertools''), Suc n)
      else (itertools_product iterables, Suc n))"

text \<open>
  The order the specification asks for, in its own words: the cartesian product of the
  value lists in which the last-listed variable varies fastest. For every value of the
  first variable, in order, come all combinations of the remaining variables, in this
  same order.
\<close>

fun product_order :: "'a list list \<Rightarrow> 'a list list" where
  "product_order [] = [[]]"
| "product_order (xs # xss) = concat (map (\<lambda>x. map (\<lambda>t. x # t) (product_order xss)) xs)"

section \<open>Template variables\<close>

text \<open>
  The pattern of \<^verbatim>\<open>_extract_template_variables\<close> is
  \<^verbatim>\<open>\{\{([a-zA-Z_][a-zA-Z0-9_-]*)\}\}\<close>. Its two character classes:
\<close>

definition is_name_start :: "char \<Rightarrow> bool" where
  "is_name_start c \<longleftrightarrow>
     (CHR ''a'' \<le> c \<and> c \<le> CHR ''z'') \<or> (CHR ''A'' \<le> c \<and> c \<le> CHR ''Z'') \<or> c = CHR ''_''"

definition is_name_char :: "char \<Rightarrow> bool" where
  "is_name_char c \<longleftrightarrow>
     (CHR ''a'' \<le> c \<and> c \<le> CHR ''z'') \<or> (CHR ''A'' \<le> c \<and> c \<le> CHR ''Z'')
     \<or> (CHR ''0'' \<le> c \<and> c \<le> CHR ''9'') \<or> c = CHR ''_'' \<or> c = CHR ''-''"

text \<open>
  The tail of the pattern after a run of \<open>k\<close> characters of the star: two closing
  braces. It yields the run and the text after the braces.
\<close>

definition closes_after :: "nat \<Rightarrow> string \<Rightarrow> (string \<times> string) option" where
  "closes_after k t =
     (case drop k t of
        d # e # rest \<Rightarrow> if d = CHR ''}'' \<and> e = CHR ''}'' then Some (take k t, rest) else None
      | _ \<Rightarrow> None)"

text \<open>
  The star is greedy and backtracks: the engine first lets it take the longest run of
  characters of the class, and gives one character back each time the tail of the
  pattern does not match.
\<close>

fun star_backtrack :: "nat \<Rightarrow> string \<Rightarrow> (string \<times> string) option" where
  "star_backtrack 0 t = closes_after 0 t"
| "star_backtrack (Suc k) t =
     (case closes_after (Suc k) t of
        Some r \<Rightarrow> Some r
      | None \<Rightarrow> star_backtrack k t)"

text \<open>
  One attempt of the regular-expression engine to match the pattern at the start of a
  text: two opening braces, a character of the first class, the star, two closing braces.
  The attempt yields the captured group and the text after the match.
\<close>

fun match_here :: "string \<Rightarrow> (string \<times> string) option" where
  "match_here (a # b # c # t) =
     (if a = CHR ''{'' \<and> b = CHR ''{'' \<and> is_name_start c then
        (case star_backtrack (length (takeWhile is_name_char t)) t of
           Some (run, rest) \<Rightarrow> Some (c # run, rest)
         | None \<Rightarrow> None)
      else None)"
| "match_here _ = None"

text \<open>
  Giving characters back never helps here: a shorter run is followed by a character of
  the class, not by a closing brace. So the attempt is decided by the longest run.
\<close>

lemma closes_after_inside:
  assumes "k < length (takeWhile is_name_char t)"
  shows "closes_after k t = None"
proof -
  let ?run = "takeWhile is_name_char t"
  from assms have "?run ! k \<in> set ?run" by simp
  then have name: "is_name_char (?run ! k)" by (rule set_takeWhileD [THEN conjunct2])
  from assms have same: "?run ! k = t ! k" by (rule takeWhile_nth)
  have "\<not> is_name_char (CHR ''}'')" by (simp add: is_name_char_def)
  with name same have ne: "t ! k \<noteq> CHR ''}''" by auto
  from assms length_takeWhile_le [of is_name_char t] have "k < length t" by simp
  then have "drop k t = t ! k # drop (Suc k) t" by (simp add: Cons_nth_drop_Suc)
  with ne show ?thesis by (simp add: closes_after_def split: list.splits)
qed

lemma star_backtrack_inside:
  "k < length (takeWhile is_name_char t) \<Longrightarrow> star_backtrack k t = None"
  by (induction k) (simp_all add: closes_after_inside)

lemma star_backtrack_longest:
  "star_backtrack (length (takeWhile is_name_char t)) t
     = closes_after (length (takeWhile is_name_char t)) t"
proof (cases "length (takeWhile is_name_char t)")
  case 0
  then show ?thesis by simp
next
  case (Suc k)
  then have "k < length (takeWhile is_name_char t)" by simp
  then have "star_backtrack k t = None" by (rule star_backtrack_inside)
  with Suc show ?thesis by (simp split: option.splits)
qed

lemma closes_after_longest:
  "closes_after (length (takeWhile is_name_char t)) t =
     (case dropWhile is_name_char t of
        d # e # rest \<Rightarrow>
          if d = CHR ''}'' \<and> e = CHR ''}'' then Some (takeWhile is_name_char t, rest) else None
      | _ \<Rightarrow> None)"
proof -
  have "drop (length (takeWhile is_name_char t)) t = dropWhile is_name_char t"
    by (simp add: dropWhile_eq_drop)
  moreover have "take (length (takeWhile is_name_char t)) t = takeWhile is_name_char t"
    by (rule takeWhile_eq_take [symmetric])
  ultimately show ?thesis by (simp only: closes_after_def)
qed

lemma match_here_greedy:
  "match_here (a # b # c # t) =
     (if a = CHR ''{'' \<and> b = CHR ''{'' \<and> is_name_start c then
        (case dropWhile is_name_char t of
           d # e # rest \<Rightarrow>
             if d = CHR ''}'' \<and> e = CHR ''}'' then Some (c # takeWhile is_name_char t, rest)
             else None
         | _ \<Rightarrow> None)
      else None)"
proof (cases "dropWhile is_name_char t")
  case Nil
  then show ?thesis
    by (simp only: match_here.simps star_backtrack_longest closes_after_longest) simp
next
  case (Cons d rest1)
  show ?thesis
  proof (cases rest1)
    case Nil
    with Cons show ?thesis
      by (simp only: match_here.simps star_backtrack_longest closes_after_longest) simp
  next
    case (Cons e rest)
    with \<open>dropWhile is_name_char t = d # rest1\<close> show ?thesis
      by (simp only: match_here.simps star_backtrack_longest closes_after_longest) simp
  qed
qed

declare match_here.simps(1) [simp del]

declare match_here_greedy [simp]

lemma match_here_shorter:
  "match_here s = Some (name, rest) \<Longrightarrow> length rest < length s"
proof (induction s rule: match_here.induct)
  case (1 a b c t)
  from "1.prems" obtain d e where "dropWhile is_name_char t = d # e # rest"
    unfolding match_here_greedy by (auto split: if_splits list.splits)
  then have "length (dropWhile is_name_char t) = Suc (Suc (length rest))" by simp
  moreover have "length (dropWhile is_name_char t) \<le> length t"
    by (rule length_dropWhile_le)
  ultimately show ?case by simp
qed simp_all

text \<open>
  \<^verbatim>\<open>re.findall(pattern, text)\<close>: the text is scanned from left to right; where the pattern
  matches, the group is recorded and the scan goes on after the match; where it does not,
  the scan goes on one character further.
\<close>

function findall :: "string \<Rightarrow> string list" where
  "findall [] = []"
| "findall (c # t) =
     (case match_here (c # t) of
        Some (name, rest) \<Rightarrow> name # findall rest
      | None \<Rightarrow> findall t)"
  by pat_completeness auto
termination
  by (relation "measure length") (auto dest: match_here_shorter)

text \<open>
  \<^verbatim>\<open>WorkflowExecutor._extract_template_variables\<close>: the empty set for anything that is not
  a string, the set of the groups found otherwise.
\<close>

fun extract_template_variables :: "doc \<Rightarrow> string set" where
  "extract_template_variables (DStr text) = set (findall text)"
| "extract_template_variables _ = {}"

text \<open>
  \<^verbatim>\<open>WorkflowExecutor._collect_template_variables\<close>: the set \<^verbatim>\<open>used_variables\<close> is updated
  in place by the code and passed through here. A mapping is walked by its values, a
  sequence by its items, a string is scanned, anything else is left alone.
\<close>

fun collect_template_variables :: "doc \<Rightarrow> string set \<Rightarrow> string set"
  and collect_items :: "doc list \<Rightarrow> string set \<Rightarrow> string set"
  and collect_values :: "(string \<times> doc) list \<Rightarrow> string set \<Rightarrow> string set" where
  "collect_template_variables (DDict kvs) used_variables = collect_values kvs used_variables"
| "collect_template_variables (DList items) used_variables = collect_items items used_variables"
| "collect_template_variables (DStr text) used_variables =
     used_variables \<union> extract_template_variables (DStr text)"
| "collect_template_variables _ used_variables = used_variables"
| "collect_items [] used_variables = used_variables"
| "collect_items (item # items) used_variables =
     collect_items items (collect_template_variables item used_variables)"
| "collect_values [] used_variables = used_variables"
| "collect_values ((k, v) # kvs) used_variables =
     collect_values kvs (collect_template_variables v used_variables)"

text \<open>
  \<^verbatim>\<open>workflow["matrix"].keys()\<close>: only a mapping has the method; on any other value the
  attribute access raises \<^verbatim>\<open>AttributeError\<close>.
\<close>

fun dict_keys :: "doc \<Rightarrow> exn + string list" where
  "dict_keys (DDict kvs) = Inr (map fst kvs)"
| "dict_keys v =
     Inl (AttributeError
            ([CHR 0x27] @ type_name v @ ''' object has no attribute 'keys'' @ [CHR 0x27]))"

text \<open>
  The text of a list of strings inside an f-string: the \<^verbatim>\<open>repr\<close> of each item, separated
  by a comma and a space, between brackets. The \<^verbatim>\<open>repr\<close> of a string is the interpreter's
  and is a parameter here; \<open>repr_plain\<close> is what it yields for a string of printable ASCII
  characters with no quote and no backslash, such as an identifier.
\<close>

fun join_strings :: "string \<Rightarrow> string list \<Rightarrow> string" where
  "join_strings sep [] = []"
| "join_strings sep [x] = x"
| "join_strings sep (x # y # ys) = x @ sep @ join_strings sep (y # ys)"

definition list_repr :: "(string \<Rightarrow> string) \<Rightarrow> string list \<Rightarrow> string" where
  "list_repr repr xs = ''['' @ join_strings '', '' (map repr xs) @ '']''"

definition repr_plain :: "string \<Rightarrow> string" where
  "repr_plain s = [CHR 0x27] @ s @ [CHR 0x27]"

text \<open>\<^verbatim>\<open>sorted\<close> on a set of strings: ascending, compared character by character.\<close>

definition py_sorted :: "string set \<Rightarrow> string list" where
  "py_sorted S = sorted_list_of_set S"

text \<open>
  \<^verbatim>\<open>WorkflowExecutor._validate_template_variables\<close>. The workflow is the top-level mapping
  of the document.
\<close>

definition available_variables :: "(string \<times> doc) list \<Rightarrow> exn + string set" where
  "available_variables workflow =
     (case map_of workflow ''matrix'' of
        None \<Rightarrow> Inr {''id'', ''description''}
      | Some m \<Rightarrow>
          (case dict_keys m of
             Inl e \<Rightarrow> Inl e
           | Inr ks \<Rightarrow> Inr ({''id'', ''description''} \<union> set ks)))"

definition validate_template_variables ::
    "(string \<Rightarrow> string) \<Rightarrow> (string \<times> doc) list \<Rightarrow> exn + unit" where
  "validate_template_variables repr workflow =
     (case available_variables workflow of
        Inl e \<Rightarrow> Inl e
      | Inr available \<Rightarrow>
          (let used_variables = collect_template_variables (DDict workflow) {};
               unknown_variables = used_variables - available
           in if unknown_variables \<noteq> {} then
                Inl (WorkflowExecutionError
                       (''Unknown template variables: ''
                          @ list_repr repr (py_sorted unknown_variables)
                          @ ''. Available variables: ''
                          @ list_repr repr (py_sorted available)))
              else Inr ()))"

section \<open>Parsing a workflow\<close>

text \<open>
  \<^verbatim>\<open>WorkflowExecutor.parse_workflow\<close>. The loader \<^verbatim>\<open>load_workflow_file\<close> and the structural
  validator \<^verbatim>\<open>validate_workflow\<close> belong to \<^verbatim>\<open>causaliq_workflow.schema\<close>, which is not
  among the source files: they are parameters, each returning its value or the exception it
  raises. The handler of the \<^verbatim>\<open>try\<close> block catches \<^verbatim>\<open>WorkflowValidationError\<close> only and
  raises \<^verbatim>\<open>WorkflowExecutionError\<close> with the text \<^verbatim>\<open>Workflow validation failed: {e}\<close>; any
  other exception passes through.
\<close>

fun wrap_validation_error :: "exn \<Rightarrow> exn" where
  "wrap_validation_error (WorkflowValidationError m) =
     WorkflowExecutionError (''Workflow validation failed: '' @ m)"
| "wrap_validation_error e = e"

definition parse_workflow ::
    "(string \<Rightarrow> exn + (string \<times> doc) list) \<Rightarrow> ((string \<times> doc) list \<Rightarrow> exn + bool) \<Rightarrow>
     (string \<Rightarrow> string) \<Rightarrow> string \<Rightarrow> exn + (string \<times> doc) list" where
  "parse_workflow load_workflow_file validate_workflow repr workflow_path =
     (case load_workflow_file workflow_path of
        Inl e \<Rightarrow> Inl (wrap_validation_error e)
      | Inr workflow \<Rightarrow>
          (case validate_workflow workflow of
             Inl e \<Rightarrow> Inl (wrap_validation_error e)
           | Inr ok \<Rightarrow>
               (case validate_template_variables repr workflow of
                  Inl e \<Rightarrow> Inl (wrap_validation_error e)
                | Inr u \<Rightarrow> Inr workflow)))"

section \<open>Notions of the specification\<close>

text \<open>
  The placeholders of a text in the specification's words: the identifiers, a letter or an
  underscore followed by letters, digits, underscores and hyphens, that occur in the
  text between two opening and two closing braces.
\<close>

definition is_identifier :: "string \<Rightarrow> bool" where
  "is_identifier n =
     (case n of [] \<Rightarrow> False | c # cs \<Rightarrow> is_name_start c \<and> list_all is_name_char cs)"

definition placeholders :: "string \<Rightarrow> string set" where
  "placeholders s =
     {n. is_identifier n \<and> (\<exists>pre post. s = pre @ ''{{'' @ n @ ''}}'' @ post)}"

text \<open>
  The string leaves of a document in the specification's words: mappings are walked by
  value, sequences by element.
\<close>

fun string_leaves :: "doc \<Rightarrow> string list"
  and leaves_of_items :: "doc list \<Rightarrow> string list"
  and leaves_of_values :: "(string \<times> doc) list \<Rightarrow> string list" where
  "string_leaves (DDict kvs) = leaves_of_values kvs"
| "string_leaves (DList items) = leaves_of_items items"
| "string_leaves (DStr text) = [text]"
| "string_leaves _ = []"
| "leaves_of_items [] = []"
| "leaves_of_items (item # items) = string_leaves item @ leaves_of_items items"
| "leaves_of_values [] = []"
| "leaves_of_values ((k, v) # kvs) = string_leaves v @ leaves_of_values kvs"

text \<open>
  The sets that the specification's \<^verbatim>\<open>validate\<close> compares: the placeholders of all
  string leaves of the workflow, and \<^verbatim>\<open>id\<close>, \<^verbatim>\<open>description\<close> and the keys of the matrix,
  if there is one. The data model types the matrix as a mapping.
\<close>

definition used_placeholders :: "(string \<times> doc) list \<Rightarrow> string set" where
  "used_placeholders workflow = (\<Union>s \<in> set (string_leaves (DDict workflow)). placeholders s)"

definition matrix_keys :: "(string \<times> doc) list \<Rightarrow> string set" where
  "matrix_keys workflow =
     (case map_of workflow ''matrix'' of Some (DDict kvs) \<Rightarrow> set (map fst kvs) | _ \<Rightarrow> {})"

definition available_names :: "(string \<times> doc) list \<Rightarrow> string set" where
  "available_names workflow = {''id'', ''description''} \<union> matrix_keys workflow"

definition matrix_is_mapping :: "(string \<times> doc) list \<Rightarrow> bool" where
  "matrix_is_mapping workflow =
     (case map_of workflow ''matrix'' of
        None \<Rightarrow> True
      | Some (DDict kvs) \<Rightarrow> True
      | Some _ \<Rightarrow> False)"

text \<open>
  Modelled from the spec: \<^verbatim>\<open>ActionRegistry.validate_workflow_actions\<close>, whose module
  \<^verbatim>\<open>causaliq_workflow/registry.py\<close> is not among the source files, here with its first rule
  only: a step whose \<^verbatim>\<open>uses\<close> names an action that is not in the index is a reference
  error. The index is the list of the registered action names.
\<close>

fun step_uses :: "doc \<Rightarrow> string option" where
  "step_uses (DDict kvs) = (case map_of kvs ''uses'' of Some (DStr a) \<Rightarrow> Some a | _ \<Rightarrow> None)"
| "step_uses _ = None"

definition invalid_uses :: "string list \<Rightarrow> (string \<times> doc) list \<Rightarrow> string list" where
  "invalid_uses index workflow =
     (case map_of workflow ''steps'' of
        Some (DList steps) \<Rightarrow>
          concat (map (\<lambda>step. case step_uses step of
                                 Some a \<Rightarrow> if a \<in> set index then [] else [a]
                               | None \<Rightarrow> []) steps)
      | _ \<Rightarrow> [])"

text \<open>The workflows of the scenarios.\<close>

definition workflow_unknown_var :: "(string \<times> doc) list" where
  "workflow_unknown_var =
     [(''id'', DStr ''test-workflow''),
      (''description'', DStr ''Test workflow''),
      (''matrix'', DDict [(''dataset'', DList [DStr ''asia''])]),
      (''steps'', DList [DDict
         [(''uses'', DStr ''action''),
          (''with'', DDict [(''result'', DStr ''/results/{{unknown_var}}/{{dataset}}.xml'')])]])]"

definition workflow_unknown_action :: "(string \<times> doc) list" where
  "workflow_unknown_action =
     [(''id'', DStr ''test-workflow''),
      (''description'', DStr ''Test workflow''),
      (''steps'', DList [DDict
         [(''uses'', DStr ''no_such_action''),
          (''with'', DDict [(''result'', DStr ''/results/{{id}}.xml'')])]])]"

text \<open>
  A workflow whose matrix key is present with no value, as YAML reads a bare
  \<^verbatim>\<open>matrix:\<close> line: it uses no placeholder at all.
\<close>

definition workflow_null_matrix :: "(string \<times> doc) list" where
  "workflow_null_matrix =
     [(''id'', DStr ''w''),
      (''description'', DStr ''d''),
      (''matrix'', DNone),
      (''steps'', DList [DDict [(''run'', DStr ''echo hello'')]])]"

section \<open>Properties of the task status taxonomy\<close>

lemma all_statuses_complete: "s \<in> set all_statuses"
  by (cases s) (simp_all add: all_statuses_def)

lemma all_statuses_distinct: "distinct all_statuses"
  by (simp add: all_statuses_def)

text \<open>
  Claim C9. \<^verbatim>\<open>TaskStatus\<close> is a closed enumeration of exactly ten values: the ten listed
  members are pairwise different and there is no other value. Every value satisfies exactly
  one of \<^verbatim>\<open>is_success\<close> and \<^verbatim>\<open>is_error\<close>; \<^verbatim>\<open>is_success\<close> holds exactly on EXECUTES,
  WOULD_EXECUTE, SKIPS, WOULD_SKIP, IDENTICAL and DIFFERENT, \<^verbatim>\<open>is_error\<close> exactly on the four
  remaining values, \<^verbatim>\<open>is_execution\<close> exactly on EXECUTES, IDENTICAL and DIFFERENT, and
  \<^verbatim>\<open>is_dry_run\<close> exactly on WOULD_EXECUTE and WOULD_SKIP.
\<close>

theorem task_status_partition:
  "(UNIV :: TaskStatus set) = set all_statuses
   \<and> distinct all_statuses \<and> length all_statuses = 10
   \<and> card (UNIV :: TaskStatus set) = 10
   \<and> (\<forall>s. is_success s \<noteq> is_error s)
   \<and> {s. is_success s} = {EXECUTES, WOULD_EXECUTE, SKIPS, WOULD_SKIP, IDENTICAL, DIFFERENT}
   \<and> {s. is_error s} = UNIV - {EXECUTES, WOULD_EXECUTE, SKIPS, WOULD_SKIP, IDENTICAL, DIFFERENT}
   \<and> {s. is_error s} = {INVALID_USES, INVALID_PARAMETER, FAILED, TIMED_OUT}
   \<and> {s. is_execution s} = {EXECUTES, IDENTICAL, DIFFERENT}
   \<and> {s. is_dry_run s} = {WOULD_EXECUTE, WOULD_SKIP}"
proof -
  have univ: "(UNIV :: TaskStatus set) = set all_statuses"
    using all_statuses_complete by blast
  have len: "length all_statuses = 10"
    by (simp add: all_statuses_def)
  have card: "card (UNIV :: TaskStatus set) = 10"
    using distinct_card [OF all_statuses_distinct] univ len by simp
  have excl: "\<forall>s. is_success s \<noteq> is_error s"
  proof
    fix s show "is_success s \<noteq> is_error s" by (cases s) simp_all
  qed
  have succ: "{s. is_success s} = {EXECUTES, WOULD_EXECUTE, SKIPS, WOULD_SKIP, IDENTICAL, DIFFERENT}"
  proof (rule set_eqI)
    fix s show "s \<in> {s. is_success s} \<longleftrightarrow> s \<in> {EXECUTES, WOULD_EXECUTE, SKIPS, WOULD_SKIP, IDENTICAL, DIFFERENT}"
      by (cases s) simp_all
  qed
  have err: "{s. is_error s} = {INVALID_USES, INVALID_PARAMETER, FAILED, TIMED_OUT}"
  proof (rule set_eqI)
    fix s show "s \<in> {s. is_error s} \<longleftrightarrow> s \<in> {INVALID_USES, INVALID_PARAMETER, FAILED, TIMED_OUT}"
      by (cases s) simp_all
  qed
  have compl: "{s. is_error s} = UNIV - {EXECUTES, WOULD_EXECUTE, SKIPS, WOULD_SKIP, IDENTICAL, DIFFERENT}"
  proof (rule set_eqI)
    fix s show "s \<in> {s. is_error s} \<longleftrightarrow> s \<in> UNIV - {EXECUTES, WOULD_EXECUTE, SKIPS, WOULD_SKIP, IDENTICAL, DIFFERENT}"
      by (cases s) simp_all
  qed
  have exec: "{s. is_execution s} = {EXECUTES, IDENTICAL, DIFFERENT}"
  proof (rule set_eqI)
    fix s show "s \<in> {s. is_execution s} \<longleftrightarrow> s \<in> {EXECUTES, IDENTICAL, DIFFERENT}"
      by (cases s) simp_all
  qed
  have dry: "{s. is_dry_run s} = {WOULD_EXECUTE, WOULD_SKIP}"
  proof (rule set_eqI)
    fix s show "s \<in> {s. is_dry_run s} \<longleftrightarrow> s \<in> {WOULD_EXECUTE, WOULD_SKIP}"
      by (cases s) simp_all
  qed
  from univ all_statuses_distinct len card excl succ compl err exec dry show ?thesis
    by blast
qed

section \<open>Properties of matrix expansion\<close>

lemma product_step_Nil [simp]: "product_step [] pool = []"
  by (simp add: product_step_def)

lemma product_step_Cons:
  "product_step (a # acc) pool = map (\<lambda>y. a @ [y]) pool @ product_step acc pool"
  by (simp add: product_step_def)

lemma product_step_append:
  "product_step (as @ bs) pool = product_step as pool @ product_step bs pool"
  by (simp add: product_step_def)

lemma foldl_product_step_Nil [simp]: "foldl product_step [] ps = []"
  by (induction ps) simp_all

lemma foldl_product_step_append:
  "foldl product_step (as @ bs) ps = foldl product_step as ps @ foldl product_step bs ps"
  by (induction ps arbitrary: as bs) (simp_all add: product_step_append)

lemma foldl_product_step_single:
  "foldl product_step [a] ps = map (\<lambda>c. a @ c) (product_order ps)"
proof (induction ps arbitrary: a)
  case Nil
  show ?case by simp
next
  case (Cons p ps)
  have "foldl product_step (map (\<lambda>y. a @ [y]) p) ps
        = concat (map (\<lambda>y. map (\<lambda>c. a @ y # c) (product_order ps)) p)"
  proof (induction p)
    case Nil
    show ?case by simp
  next
    case (Cons y p)
    have "foldl product_step (map (\<lambda>y. a @ [y]) (y # p)) ps
          = foldl product_step ([a @ [y]] @ map (\<lambda>y. a @ [y]) p) ps"
      by simp
    also have "\<dots> = foldl product_step [a @ [y]] ps @ foldl product_step (map (\<lambda>y. a @ [y]) p) ps"
      by (rule foldl_product_step_append)
    finally show ?case
      using Cons.IH \<open>\<And>a. foldl product_step [a] ps = map (\<lambda>c. a @ c) (product_order ps)\<close>
      by simp
  qed
  then show ?case
    by (simp add: product_step_Cons map_concat comp_def)
qed

lemma foldl_product_step_order: "foldl product_step [[]] ps = product_order ps"
  using foldl_product_step_single [of "[]" ps] by simp

lemma length_product_order: "length (product_order xss) = prod_list (map length xss)"
proof (induction xss)
  case Nil
  show ?case by simp
next
  case (Cons xs xss)
  have "length (concat (map (\<lambda>x. map (\<lambda>t. x # t) (product_order xss)) xs))
        = length xs * length (product_order xss)"
    by (induction xs) simp_all
  with Cons.IH show ?case by simp
qed

lemma product_order_lengths: "c \<in> set (product_order xss) \<Longrightarrow> length c = length xss"
  by (induction xss arbitrary: c) auto

lemma product_order_empty: "[] \<in> set xss \<Longrightarrow> product_order xss = []"
  by (induction xss) auto

lemma product_order_hd:
  "\<forall>xs \<in> set xss. xs \<noteq> [] \<Longrightarrow>
   product_order xss \<noteq> [] \<and> hd (product_order xss) = map hd xss"
proof (induction xss)
  case Nil
  show ?case by simp
next
  case (Cons xs xss)
  then obtain x xs' where xs: "xs = x # xs'" by (cases xs) auto
  from Cons have IH: "product_order xss \<noteq> []" "hd (product_order xss) = map hd xss"
    by simp_all
  show ?case using IH by (simp add: xs hd_append hd_map)
qed

lemma product_order_snoc:
  "product_order (xss @ [ys]) = concat (map (\<lambda>c. map (\<lambda>y. c @ [y]) ys) (product_order xss))"
proof -
  have "product_order (xss @ [ys]) = foldl product_step [[]] (xss @ [ys])"
    by (simp only: foldl_product_step_order)
  also have "\<dots> = product_step (foldl product_step [[]] xss) ys"
    by simp
  finally show ?thesis
    by (simp add: product_step_def foldl_product_step_order)
qed

lemma make_pools_lists: "make_pools (map DList xss) = Inr xss"
  by (induction xss) simp_all

lemma itertools_product_lists: "itertools_product (map DList xss) = Inr (product_order xss)"
  by (simp add: itertools_product_def make_pools_lists foldl_product_step_order)

lemma dict_set_fresh: "k \<notin> fst ` set d \<Longrightarrow> dict_set d k v = d @ [(k, v)]"
  by (induction d) auto

lemma foldl_dict_set_distinct:
  "distinct (map fst d @ map fst ps) \<Longrightarrow>
   foldl (\<lambda>d kv. dict_set d (fst kv) (snd kv)) d ps = d @ ps"
proof (induction ps arbitrary: d)
  case Nil
  show ?case by simp
next
  case (Cons p ps)
  from Cons.prems have fresh: "fst p \<notin> fst ` set d" by auto
  from Cons.prems have "distinct (map fst (d @ [p]) @ map fst ps)" by auto
  from Cons.IH [OF this] show ?case
    by (simp add: dict_set_fresh [OF fresh])
qed

lemma py_dict_distinct: "distinct (map fst ps) \<Longrightarrow> py_dict ps = ps"
  using foldl_dict_set_distinct [of "[]" ps] by (simp add: py_dict_def)

lemma py_dict_zip:
  assumes "distinct ks" "length c = length ks"
  shows "py_dict (zip ks c) = zip ks c"
proof -
  from assms have "map fst (zip ks c) = ks" by simp
  with assms(1) show ?thesis by (simp add: py_dict_distinct)
qed

lemma keys_matrix_of [simp]: "map fst (matrix_of tm) = map fst tm"
  by (simp add: matrix_of_def comp_def)

lemma values_matrix_of [simp]: "map snd (matrix_of tm) = map DList (map snd tm)"
  by (simp add: matrix_of_def comp_def)

lemma matrix_of_Nil_iff [simp]: "matrix_of tm = [] \<longleftrightarrow> tm = []"
  by (simp add: matrix_of_def)

lemma expand_matrix_lists_raw:
  "tm \<noteq> [] \<Longrightarrow>
   expand_matrix (matrix_of tm)
     = Inr (map (\<lambda>c. py_dict (zip (map fst tm) c)) (product_order (map snd tm)))"
  using itertools_product_lists [of "map snd tm"]
  by (simp add: expand_matrix_def)

lemma expand_matrix_lists:
  assumes "tm \<noteq> []" "distinct (map fst tm)"
  shows "expand_matrix (matrix_of tm)
           = Inr (map (zip (map fst tm)) (product_order (map snd tm)))"
proof -
  have "map (\<lambda>c. py_dict (zip (map fst tm) c)) (product_order (map snd tm))
        = map (zip (map fst tm)) (product_order (map snd tm))"
  proof (rule map_cong [OF refl])
    fix c assume "c \<in> set (product_order (map snd tm))"
    then have "length c = length (map fst tm)"
      by (simp add: product_order_lengths)
    with assms(2) show "py_dict (zip (map fst tm) c) = zip (map fst tm) c"
      by (rule py_dict_zip)
  qed
  with expand_matrix_lists_raw [OF assms(1)] show ?thesis by simp
qed

lemma expand_matrix_jobs_keys:
  assumes "tm \<noteq> []" "distinct (map fst tm)"
    and "job \<in> set (map (zip (map fst tm)) (product_order (map snd tm)))"
  shows "map fst job = map fst tm"
proof -
  from assms(3) obtain c where c: "c \<in> set (product_order (map snd tm))"
    and job: "job = zip (map fst tm) c" by auto
  from c have "length c = length (map fst tm)" by (simp add: product_order_lengths)
  with job show ?thesis by simp
qed

lemma expand_matrix_snoc:
  assumes dist: "distinct (map fst (tm' @ [(k, vs)]))"
    and prev: "expand_matrix (matrix_of tm') = Inr jobs'"
  shows "expand_matrix (matrix_of (tm' @ [(k, vs)]))
           = Inr (concat (map (\<lambda>job'. map (\<lambda>v. job' @ [(k, v)]) vs) jobs'))"
proof -
  let ?ks = "map fst tm'"
  let ?P = "product_order (map snd tm')"
  have jobs': "jobs' = map (zip ?ks) ?P"
  proof (cases "tm' = []")
    case True
    with prev show ?thesis by (simp add: expand_matrix_def matrix_of_def)
  next
    case False
    from dist have "distinct (map fst tm')" by simp
    from expand_matrix_lists [OF False this] prev show ?thesis by simp
  qed
  have len: "\<And>c. c \<in> set ?P \<Longrightarrow> length c = length ?ks"
    by (simp add: product_order_lengths)
  have "expand_matrix (matrix_of (tm' @ [(k, vs)]))
          = Inr (map (zip (?ks @ [k])) (product_order (map snd tm' @ [vs])))"
    using expand_matrix_lists [of "tm' @ [(k, vs)]"] dist by simp
  also have "map (zip (?ks @ [k])) (product_order (map snd tm' @ [vs]))
          = concat (map (\<lambda>c. map (\<lambda>y. zip (?ks @ [k]) (c @ [y])) vs) ?P)"
    by (simp add: product_order_snoc map_concat comp_def)
  also have "\<dots> = concat (map (\<lambda>c. map (\<lambda>y. zip ?ks c @ [(k, y)]) vs) ?P)"
  proof -
    have eq: "map (\<lambda>c. map (\<lambda>y. zip (?ks @ [k]) (c @ [y])) vs) ?P
          = map (\<lambda>c. map (\<lambda>y. zip ?ks c @ [(k, y)]) vs) ?P"
      by (rule map_cong [OF refl]) (simp add: len)
    show ?thesis by (simp only: eq)
  qed
  also have "\<dots> = concat (map (\<lambda>job'. map (\<lambda>v. job' @ [(k, v)]) vs) jobs')"
    by (simp add: jobs' comp_def)
  finally show ?thesis .
qed

lemma expand_matrix_two:
  assumes "A \<noteq> B"
  shows "expand_matrix [(A, DList [a1, a2]), (B, DList [b1, b2])]
         = Inr [[(A, a1), (B, b1)], [(A, a1), (B, b2)], [(A, a2), (B, b1)], [(A, a2), (B, b2)]]"
  using expand_matrix_lists [of "[(A, [a1, a2]), (B, [b1, b2])]"] assms
  by (simp add: matrix_of_def)

lemma expand_matrix_scenario:
  "expand_matrix
     [(''algorithm'', DList [DStr ''pc'', DStr ''ges'']),
      (''dataset'', DList [DStr ''asia'', DStr ''cancer''])]
   = Inr [[(''algorithm'', DStr ''pc''), (''dataset'', DStr ''asia'')],
          [(''algorithm'', DStr ''pc''), (''dataset'', DStr ''cancer'')],
          [(''algorithm'', DStr ''ges''), (''dataset'', DStr ''asia'')],
          [(''algorithm'', DStr ''ges''), (''dataset'', DStr ''cancer'')]]"
  by (rule expand_matrix_two) simp

text \<open>
  Claim C1. For every non-empty matrix, \<^verbatim>\<open>expand_matrix\<close> emits the jobs in the order of
  the cartesian product in which the last-listed variable varies fastest: the jobs are the
  combinations of \<open>product_order\<close>, each zipped with the variable names, so every job binds
  every variable name in its declared order; and the jobs of a matrix with a further, last
  variable are the jobs of the matrix without it, each followed through all values of that
  last variable in turn. For variables \<open>A\<close>, \<open>B\<close> with values \<open>[a1, a2]\<close> and \<open>[b1, b2]\<close>
  the order is \<open>(a1, b1), (a1, b2), (a2, b1), (a2, b2)\<close>, and the matrix of two algorithms
  and two datasets expands to the four jobs pc/asia, pc/cancer, ges/asia, ges/cancer.
  The keys of a matrix are pairwise different, as those of any \<^verbatim>\<open>dict\<close> are.
\<close>

theorem expand_matrix_order:
  "(\<forall>tm. tm \<noteq> [] \<and> distinct (map fst tm) \<longrightarrow>
      (\<exists>jobs. expand_matrix (matrix_of tm) = Inr jobs
         \<and> jobs = map (zip (map fst tm)) (product_order (map snd tm))
         \<and> (\<forall>job \<in> set jobs. map fst job = map fst tm)
         \<and> (\<forall>tm' k vs jobs'. tm = tm' @ [(k, vs)] \<and> expand_matrix (matrix_of tm') = Inr jobs'
               \<longrightarrow> jobs = concat (map (\<lambda>job'. map (\<lambda>v. job' @ [(k, v)]) vs) jobs'))))
   \<and> (\<forall>A B a1 a2 b1 b2. A \<noteq> B \<longrightarrow>
        expand_matrix [(A, DList [a1, a2]), (B, DList [b1, b2])]
          = Inr [[(A, a1), (B, b1)], [(A, a1), (B, b2)], [(A, a2), (B, b1)], [(A, a2), (B, b2)]])
   \<and> expand_matrix
        [(''algorithm'', DList [DStr ''pc'', DStr ''ges'']),
         (''dataset'', DList [DStr ''asia'', DStr ''cancer''])]
      = Inr [[(''algorithm'', DStr ''pc''), (''dataset'', DStr ''asia'')],
             [(''algorithm'', DStr ''pc''), (''dataset'', DStr ''cancer'')],
             [(''algorithm'', DStr ''ges''), (''dataset'', DStr ''asia'')],
             [(''algorithm'', DStr ''ges''), (''dataset'', DStr ''cancer'')]]"
proof (intro conjI allI impI)
  fix tm :: "(string \<times> doc list) list"
  assume tm: "tm \<noteq> [] \<and> distinct (map fst tm)"
  let ?jobs = "map (zip (map fst tm)) (product_order (map snd tm))"
  have run: "expand_matrix (matrix_of tm) = Inr ?jobs"
    using tm by (simp add: expand_matrix_lists)
  have keys: "\<forall>job \<in> set ?jobs. map fst job = map fst tm"
    using tm expand_matrix_jobs_keys [of tm] by blast
  have last: "\<forall>tm' k vs jobs'. tm = tm' @ [(k, vs)] \<and> expand_matrix (matrix_of tm') = Inr jobs'
        \<longrightarrow> ?jobs = concat (map (\<lambda>job'. map (\<lambda>v. job' @ [(k, v)]) vs) jobs')"
  proof (intro allI impI)
    fix tm' k vs jobs'
    assume h: "tm = tm' @ [(k, vs)] \<and> expand_matrix (matrix_of tm') = Inr jobs'"
    with tm have "distinct (map fst (tm' @ [(k, vs)]))" by simp
    from expand_matrix_snoc [OF this] h run
    show "?jobs = concat (map (\<lambda>job'. map (\<lambda>v. job' @ [(k, v)]) vs) jobs')"
      by simp
  qed
  from run keys last
  show "\<exists>jobs. expand_matrix (matrix_of tm) = Inr jobs
         \<and> jobs = map (zip (map fst tm)) (product_order (map snd tm))
         \<and> (\<forall>job \<in> set jobs. map fst job = map fst tm)
         \<and> (\<forall>tm' k vs jobs'. tm = tm' @ [(k, vs)] \<and> expand_matrix (matrix_of tm') = Inr jobs'
               \<longrightarrow> jobs = concat (map (\<lambda>job'. map (\<lambda>v. job' @ [(k, v)]) vs) jobs'))"
    by blast
next
  fix A B :: string and a1 a2 b1 b2 :: doc
  assume "A \<noteq> B"
  then show "expand_matrix [(A, DList [a1, a2]), (B, DList [b1, b2])]
          = Inr [[(A, a1), (B, b1)], [(A, a1), (B, b2)], [(A, a2), (B, b1)], [(A, a2), (B, b2)]]"
    by (rule expand_matrix_two)
next
  show "expand_matrix
        [(''algorithm'', DList [DStr ''pc'', DStr ''ges'']),
         (''dataset'', DList [DStr ''asia'', DStr ''cancer''])]
      = Inr [[(''algorithm'', DStr ''pc''), (''dataset'', DStr ''asia'')],
             [(''algorithm'', DStr ''pc''), (''dataset'', DStr ''cancer'')],
             [(''algorithm'', DStr ''ges''), (''dataset'', DStr ''asia'')],
             [(''algorithm'', DStr ''ges''), (''dataset'', DStr ''cancer'')]]"
    by (rule expand_matrix_scenario)
qed

text \<open>The jobs of a matrix of three datasets and two values of alpha, in order.\<close>

theorem expand_matrix_order_witness:
  "expand_matrix
     (matrix_of [(''dataset'', [DStr ''asia'', DStr ''cancer'', DStr ''alarm'']),
                 (''alpha'', [DInt 1, DInt 5])])
   = Inr [[(''dataset'', DStr ''asia''), (''alpha'', DInt 1)],
          [(''dataset'', DStr ''asia''), (''alpha'', DInt 5)],
          [(''dataset'', DStr ''cancer''), (''alpha'', DInt 1)],
          [(''dataset'', DStr ''cancer''), (''alpha'', DInt 5)],
          [(''dataset'', DStr ''alarm''), (''alpha'', DInt 1)],
          [(''dataset'', DStr ''alarm''), (''alpha'', DInt 5)]]"
proof -
  let ?tm = "[(''dataset'', [DStr ''asia'', DStr ''cancer'', DStr ''alarm'']),
              (''alpha'', [DInt 1, DInt 5])]"
  have h: "?tm \<noteq> [] \<and> distinct (map fst ?tm)" by simp
  from expand_matrix_order have
    "\<forall>tm. tm \<noteq> [] \<and> distinct (map fst tm) \<longrightarrow>
      (\<exists>jobs. expand_matrix (matrix_of tm) = Inr jobs
         \<and> jobs = map (zip (map fst tm)) (product_order (map snd tm))
         \<and> (\<forall>job \<in> set jobs. map fst job = map fst tm)
         \<and> (\<forall>tm' k vs jobs'. tm = tm' @ [(k, vs)] \<and> expand_matrix (matrix_of tm') = Inr jobs'
               \<longrightarrow> jobs = concat (map (\<lambda>job'. map (\<lambda>v. job' @ [(k, v)]) vs) jobs')))"
    by (rule conjunct1)
  from this [rule_format, OF h] obtain jobs where
    run: "expand_matrix (matrix_of ?tm) = Inr jobs"
    and jobs: "jobs = map (zip (map fst ?tm)) (product_order (map snd ?tm))"
    by blast
  from jobs have "jobs = [[(''dataset'', DStr ''asia''), (''alpha'', DInt 1)],
          [(''dataset'', DStr ''asia''), (''alpha'', DInt 5)],
          [(''dataset'', DStr ''cancer''), (''alpha'', DInt 1)],
          [(''dataset'', DStr ''cancer''), (''alpha'', DInt 5)],
          [(''dataset'', DStr ''alarm''), (''alpha'', DInt 1)],
          [(''dataset'', DStr ''alarm''), (''alpha'', DInt 5)]]"
    by simp
  with run show ?thesis by simp
qed

text \<open>
  Claim C2. For every non-empty matrix whose variables have value lists of lengths
  \<open>n1, ..., nk\<close>, \<^verbatim>\<open>expand_matrix\<close> returns a list of exactly \<open>n1 * ... * nk\<close> jobs; for
  the empty matrix it returns the one-element list that holds the empty job.
\<close>

theorem expand_matrix_count:
  "expand_matrix [] = Inr [[]]
   \<and> (\<forall>tm. tm \<noteq> [] \<longrightarrow>
        (\<exists>jobs. expand_matrix (matrix_of tm) = Inr jobs
           \<and> length jobs = prod_list (map (\<lambda>kv. length (snd kv)) tm)))"
proof (intro conjI allI impI)
  show "expand_matrix [] = Inr [[]]"
    by (simp add: expand_matrix_def)
next
  fix tm :: "(string \<times> doc list) list"
  assume ne: "tm \<noteq> []"
  let ?jobs = "map (\<lambda>c. py_dict (zip (map fst tm) c)) (product_order (map snd tm))"
  have run: "expand_matrix (matrix_of tm) = Inr ?jobs"
    using ne by (rule expand_matrix_lists_raw)
  have "length ?jobs = prod_list (map length (map snd tm))"
    by (simp add: length_product_order)
  also have "map length (map snd tm) = map (\<lambda>kv. length (snd kv)) tm"
    by (simp add: comp_def)
  finally have "length ?jobs = prod_list (map (\<lambda>kv. length (snd kv)) tm)" .
  with run
  show "\<exists>jobs. expand_matrix (matrix_of tm) = Inr jobs
           \<and> length jobs = prod_list (map (\<lambda>kv. length (snd kv)) tm)"
    by blast
qed

text \<open>Three datasets, two algorithms and two values of alpha give twelve jobs.\<close>

theorem expand_matrix_count_witness:
  "\<exists>jobs. expand_matrix
      (matrix_of [(''dataset'', [DStr ''asia'', DStr ''cancer'', DStr ''alarm'']),
                  (''algorithm'', [DStr ''pc'', DStr ''ges'']),
                  (''alpha'', [DInt 1, DInt 5])]) = Inr jobs
     \<and> length jobs = 12"
proof -
  let ?tm = "[(''dataset'', [DStr ''asia'', DStr ''cancer'', DStr ''alarm'']),
              (''algorithm'', [DStr ''pc'', DStr ''ges'']),
              (''alpha'', [DInt 1, DInt 5])]"
  have ne: "?tm \<noteq> []" by simp
  from expand_matrix_count have
    "\<forall>tm. tm \<noteq> [] \<longrightarrow>
        (\<exists>jobs. expand_matrix (matrix_of tm) = Inr jobs
           \<and> length jobs = prod_list (map (\<lambda>kv. length (snd kv)) tm))"
    by (rule conjunct2)
  from this [rule_format, OF ne] obtain jobs where
    run: "expand_matrix (matrix_of ?tm) = Inr jobs"
    and len: "length jobs = prod_list (map (\<lambda>kv. length (snd kv)) ?tm)"
    by blast
  from len have "length jobs = 12" by simp
  with run show ?thesis by blast
qed

text \<open>
  Claim C10. For every non-empty matrix in which the value list of at least one variable
  is empty, \<^verbatim>\<open>expand_matrix\<close> returns the empty list of jobs: it does not raise and it
  does not put a placeholder job in.
\<close>

theorem expand_matrix_empty_value_list:
  assumes "tm \<noteq> []" and "\<exists>kv \<in> set tm. snd kv = []"
  shows "expand_matrix (matrix_of tm) = Inr []"
proof -
  from assms(2) have "[] \<in> set (map snd tm)" by force
  then have "product_order (map snd tm) = []" by (rule product_order_empty)
  with expand_matrix_lists_raw [OF assms(1)] show ?thesis by simp
qed

text \<open>Two algorithms and no dataset give no job.\<close>

theorem expand_matrix_empty_value_list_witness:
  "expand_matrix
     (matrix_of [(''algorithm'', [DStr ''pc'', DStr ''ges'']), (''dataset'', [])]) = Inr []"
proof -
  let ?tm = "[(''algorithm'', [DStr ''pc'', DStr ''ges'']), (''dataset'', [])]"
  have ne: "?tm \<noteq> []" by simp
  have emp: "\<exists>kv \<in> set ?tm. snd kv = []" by simp
  from expand_matrix_empty_value_list [OF ne emp] show ?thesis .
qed

lemma expand_matrix_with_library:
  "expand_matrix_with library_product matrix s = (expand_matrix matrix, s)"
  by (simp add: expand_matrix_with_def expand_matrix_def library_product_def Let_def
      split: sum.splits)

lemma expand_matrix_with_failure_kind:
  assumes "fst (expand_matrix_with product matrix s) = Inl x"
  shows "\<exists>msg. x = WorkflowExecutionError msg"
proof (cases "matrix = []")
  case True
  with assms show ?thesis by (simp add: expand_matrix_with_def)
next
  case False
  obtain r s' where call: "product (map snd matrix) s = (r, s')"
    by (cases "product (map snd matrix) s")
  show ?thesis
  proof (cases r)
    case (Inl e)
    with False call assms show ?thesis by (auto simp add: expand_matrix_with_def)
  next
    case (Inr combinations)
    with False call assms show ?thesis by (auto simp add: expand_matrix_with_def)
  qed
qed

lemma flaky_product_depends_on_state:
  "fst (expand_matrix_with flaky_product [(''algorithm'', DList [DStr ''pc''])] 0)
     \<noteq> fst (expand_matrix_with flaky_product [(''algorithm'', DList [DStr ''pc''])] 1)"
  by (simp add: expand_matrix_with_def flaky_product_def itertools_product_def)

text \<open>
  Claim C7. For every non-empty matrix and every callable bound to
  \<^verbatim>\<open>itertools.product\<close> that raises an exception \<open>e\<close> on the value lists, of whatever
  class, \<^verbatim>\<open>expand_matrix\<close> raises \<^verbatim>\<open>WorkflowExecutionError\<close>, and its message is
  \<^verbatim>\<open>Matrix expansion failed: \<close> followed by the message of \<open>e\<close>, which it therefore
  contains. No exception of another class ever leaves the function. The failure is not
  retried: the state of the world afterwards is the one the single failing call left, and
  a callable that counts its calls has been called exactly once. The same holds of the
  function with the library's own product.
\<close>

theorem expand_matrix_wraps_failure:
  assumes "matrix \<noteq> []" and "product (map snd matrix) s = (Inl e, s')"
  shows "expand_matrix_with product matrix s
           = (Inl (WorkflowExecutionError (''Matrix expansion failed: '' @ exn_str e)), s')
       \<and> (\<exists>pre post. ''Matrix expansion failed: '' @ exn_str e = pre @ exn_str e @ post)
       \<and> expand_matrix_with (counting product) matrix (0, s)
           = (Inl (WorkflowExecutionError (''Matrix expansion failed: '' @ exn_str e)),
              (Suc 0, s'))
       \<and> (\<forall>x. fst (expand_matrix_with product matrix s) = Inl x
              \<longrightarrow> (\<exists>msg. x = WorkflowExecutionError msg))
       \<and> (\<forall>cause. itertools_product (map snd matrix) = Inl cause \<longrightarrow>
            expand_matrix matrix
              = Inl (WorkflowExecutionError (''Matrix expansion failed: '' @ exn_str cause)))"
proof -
  let ?message = "''Matrix expansion failed: '' @ exn_str e"
  have run: "expand_matrix_with product matrix s = (Inl (WorkflowExecutionError ?message), s')"
    using assms by (simp add: expand_matrix_with_def)
  have "?message = ''Matrix expansion failed: '' @ exn_str e @ []" by simp
  then have embeds: "\<exists>pre post. ?message = pre @ exn_str e @ post" by blast
  have "counting product (map snd matrix) (0, s) = (Inl e, (Suc 0, s'))"
    using assms(2) by (simp add: counting_def)
  with assms(1) have once: "expand_matrix_with (counting product) matrix (0, s)
      = (Inl (WorkflowExecutionError ?message), (Suc 0, s'))"
    by (simp add: expand_matrix_with_def)
  have kind: "\<forall>x. fst (expand_matrix_with product matrix s) = Inl x
                \<longrightarrow> (\<exists>msg. x = WorkflowExecutionError msg)"
  proof (intro allI impI)
    fix x
    assume "fst (expand_matrix_with product matrix s) = Inl x"
    then show "\<exists>msg. x = WorkflowExecutionError msg"
      by (rule expand_matrix_with_failure_kind)
  qed
  have lib: "\<forall>cause. itertools_product (map snd matrix) = Inl cause \<longrightarrow>
            expand_matrix matrix
              = Inl (WorkflowExecutionError (''Matrix expansion failed: '' @ exn_str cause))"
    using assms(1) by (simp add: expand_matrix_def)
  show ?thesis by (intro conjI run embeds once kind lib)
qed

text \<open>
  The callable of the unit test raises \<^verbatim>\<open>RuntimeError\<close> on its first call and would
  succeed on a second one: the error is wrapped and the count of calls is one. With the
  library's product, a variable whose value is the number 5 instead of a list raises
  \<^verbatim>\<open>TypeError\<close>, wrapped in the same way.
\<close>

theorem expand_matrix_wraps_failure_witness:
  "expand_matrix_with flaky_product [(''algorithm'', DList [DStr ''pc'', DStr ''ges''])] 0
     = (Inl (WorkflowExecutionError ''Matrix expansion failed: Unexpected error in itertools''),
        Suc 0)
   \<and> expand_matrix_with (counting flaky_product)
        [(''algorithm'', DList [DStr ''pc'', DStr ''ges''])] (0, 0)
     = (Inl (WorkflowExecutionError ''Matrix expansion failed: Unexpected error in itertools''),
        (Suc 0, Suc 0))
   \<and> expand_matrix_with library_product
        [(''algorithm'', DList [DStr ''pc'']), (''alpha'', DInt 5)] ()
     = (Inl (WorkflowExecutionError
              (''Matrix expansion failed: '' @ [CHR 0x27] @ ''int'' @ [CHR 0x27]
                 @ '' object is not iterable'')), ())"
proof -
  let ?m = "[(''algorithm'', DList [DStr ''pc'', DStr ''ges''])]"
  have ne: "?m \<noteq> []" by simp
  have fails: "flaky_product (map snd ?m) 0
                 = (Inl (RuntimeError ''Unexpected error in itertools''), Suc 0)"
    by (simp add: flaky_product_def)
  note first = expand_matrix_wraps_failure
    [where product = flaky_product and s = "0 :: nat", OF ne fails]
  let ?m2 = "[(''algorithm'', DList [DStr ''pc'']), (''alpha'', DInt 5)]"
  have ne2: "?m2 \<noteq> []" by simp
  have fails2: "library_product (map snd ?m2) ()
      = (Inl (TypeError ([CHR 0x27] @ ''int'' @ [CHR 0x27] @ '' object is not iterable'')), ())"
    by (simp add: library_product_def itertools_product_def)
  note second = expand_matrix_wraps_failure
    [where product = library_product and s = "()", OF ne2 fails2]
  from first have a: "expand_matrix_with flaky_product ?m 0
      = (Inl (WorkflowExecutionError
           (''Matrix expansion failed: '' @ exn_str (RuntimeError ''Unexpected error in itertools''))),
         Suc 0)"
    by (rule conjunct1)
  from first have b: "expand_matrix_with (counting flaky_product) ?m (0, 0)
      = (Inl (WorkflowExecutionError
           (''Matrix expansion failed: '' @ exn_str (RuntimeError ''Unexpected error in itertools''))),
         (Suc 0, Suc 0))"
    by (rule conjunct2 [THEN conjunct2, THEN conjunct1])
  from second have c: "expand_matrix_with library_product ?m2 ()
      = (Inl (WorkflowExecutionError
           (''Matrix expansion failed: ''
              @ exn_str (TypeError ([CHR 0x27] @ ''int'' @ [CHR 0x27] @ '' object is not iterable'')))),
         ())"
    by (rule conjunct1)
  have m1: "''Matrix expansion failed: '' @ exn_str (RuntimeError ''Unexpected error in itertools'')
            = ''Matrix expansion failed: Unexpected error in itertools''"
    by simp
  have m2: "''Matrix expansion failed: ''
              @ exn_str (TypeError ([CHR 0x27] @ ''int'' @ [CHR 0x27] @ '' object is not iterable''))
            = ''Matrix expansion failed: '' @ [CHR 0x27] @ ''int'' @ [CHR 0x27]
                 @ '' object is not iterable''"
    by simp
  from a b c show ?thesis unfolding m1 m2 by (intro conjI)
qed

text \<open>
  Claim C8 says that for every non-empty matrix the first job emitted is the combination
  of the first value of each variable. A matrix with one variable and no value for it is
  not empty, and the expansion emits no job at all, so there is no first job.
\<close>

theorem expand_matrix_no_first_job:
  "[(''a'', [])] \<noteq> ([] :: (string \<times> doc list) list)
   \<and> expand_matrix (matrix_of [(''a'', [])]) = Inr []
   \<and> \<not> (\<exists>job jobs. expand_matrix (matrix_of [(''a'', [])]) = Inr (job # jobs))"
proof -
  have "expand_matrix (matrix_of [(''a'', [])]) = Inr []"
    using expand_matrix_lists_raw [of "[(''a'', [])]"] by simp
  then show ?thesis by simp
qed

text \<open>
  Claim C8, amended. \<^verbatim>\<open>expand_matrix\<close> is deterministic and order-stable. The only thing
  in it that can reach the state of the world is the call of the product; with the
  library's product the expansion returns the same list of jobs from every state and leaves
  the state as it found it, so two runs on the same matrix give the same output. (A
  callable that reads the state does not have this property, see
  \<open>flaky_product_depends_on_state\<close>.) For every non-empty matrix in which every
  variable has at least one value, the first job emitted binds every variable, in declared
  order, to the first value of its list.
\<close>

theorem expand_matrix_deterministic_first_job:
  "(\<forall>M (s :: 's) (s' :: 's). expand_matrix_with library_product M s = (expand_matrix M, s)
       \<and> fst (expand_matrix_with library_product M s)
           = fst (expand_matrix_with library_product M s'))
   \<and> (\<forall>tm. tm \<noteq> [] \<and> distinct (map fst tm) \<and> (\<forall>kv \<in> set tm. snd kv \<noteq> []) \<longrightarrow>
        (\<exists>job jobs. expand_matrix (matrix_of tm) = Inr (job # jobs)
           \<and> job = map (\<lambda>kv. (fst kv, hd (snd kv))) tm))"
proof (intro conjI allI impI)
  fix M :: "(string \<times> doc) list" and s s' :: 's
  show "expand_matrix_with library_product M s = (expand_matrix M, s)"
    by (rule expand_matrix_with_library)
  show "fst (expand_matrix_with library_product M s)
          = fst (expand_matrix_with library_product M s')"
    by (simp add: expand_matrix_with_library)
next
  fix tm :: "(string \<times> doc list) list"
  assume h: "tm \<noteq> [] \<and> distinct (map fst tm) \<and> (\<forall>kv \<in> set tm. snd kv \<noteq> [])"
  let ?P = "product_order (map snd tm)"
  from h have "\<forall>xs \<in> set (map snd tm). xs \<noteq> []" by simp
  from product_order_hd [OF this]
  have ne: "?P \<noteq> []" and first: "hd ?P = map hd (map snd tm)" by simp_all
  from ne obtain c cs where P: "?P = c # cs" by (cases ?P) auto
  with first have c: "c = map hd (map snd tm)" by simp
  have "zip (map fst tm) c = map (\<lambda>kv. (fst kv, hd (snd kv))) tm"
    unfolding c by (induction tm) simp_all
  moreover have "expand_matrix (matrix_of tm) = Inr (zip (map fst tm) c # map (zip (map fst tm)) cs)"
    using h expand_matrix_lists [of tm] P by simp
  ultimately
  show "\<exists>job jobs. expand_matrix (matrix_of tm) = Inr (job # jobs)
           \<and> job = map (\<lambda>kv. (fst kv, hd (snd kv))) tm"
    by blast
qed

text \<open>The first job of the matrix of two algorithms and two datasets is pc/asia.\<close>

theorem expand_matrix_deterministic_first_job_witness:
  "\<exists>jobs. expand_matrix
      (matrix_of [(''algorithm'', [DStr ''pc'', DStr ''ges'']),
                  (''dataset'', [DStr ''asia'', DStr ''cancer''])])
     = Inr ([(''algorithm'', DStr ''pc''), (''dataset'', DStr ''asia'')] # jobs)"
proof -
  let ?tm = "[(''algorithm'', [DStr ''pc'', DStr ''ges'']),
              (''dataset'', [DStr ''asia'', DStr ''cancer''])]"
  have h: "?tm \<noteq> [] \<and> distinct (map fst ?tm) \<and> (\<forall>kv \<in> set ?tm. snd kv \<noteq> [])"
    by simp
  from expand_matrix_deterministic_first_job have
    "\<forall>tm. tm \<noteq> [] \<and> distinct (map fst tm) \<and> (\<forall>kv \<in> set tm. snd kv \<noteq> []) \<longrightarrow>
        (\<exists>job jobs. expand_matrix (matrix_of tm) = Inr (job # jobs)
           \<and> job = map (\<lambda>kv. (fst kv, hd (snd kv))) tm)"
    by (rule conjunct2)
  from this [rule_format, OF h] obtain job jobs where
    run: "expand_matrix (matrix_of ?tm) = Inr (job # jobs)"
    and job: "job = map (\<lambda>kv. (fst kv, hd (snd kv))) ?tm"
    by blast
  from job have "job = [(''algorithm'', DStr ''pc''), (''dataset'', DStr ''asia'')]"
    by simp
  with run show ?thesis by blast
qed

section \<open>Properties of template validation and parsing\<close>

lemma not_name_char_open [simp]: "\<not> is_name_char (CHR ''{'')"
  by (simp add: is_name_char_def)

lemma not_name_char_close [simp]: "\<not> is_name_char (CHR ''}'')"
  by (simp add: is_name_char_def)

lemma not_name_start_open [simp]: "\<not> is_name_start (CHR ''{'')"
  by (simp add: is_name_start_def)

lemma name_start_is_name_char: "is_name_start c \<Longrightarrow> is_name_char c"
  by (auto simp add: is_name_start_def is_name_char_def)

lemma identifier_chars: "is_identifier n \<Longrightarrow> x \<in> set n \<Longrightarrow> is_name_char x"
  by (cases n) (auto simp add: is_identifier_def list_all_iff name_start_is_name_char)

lemma match_here_sound:
  assumes "match_here s = Some (n, rest)"
  shows "is_identifier n \<and> s = ''{{'' @ n @ ''}}'' @ rest"
  using assms
proof (induction s rule: match_here.induct)
  case (1 a b c t)
  note greedy = "1.prems" [unfolded match_here_greedy]
  from greedy have ab: "a = CHR ''{''" "b = CHR ''{''" and c: "is_name_start c"
    by (auto split: if_splits)
  from greedy ab c obtain d e where
    drop: "dropWhile is_name_char t = d # e # rest"
    and de: "d = CHR ''}''" "e = CHR ''}''"
    and n: "n = c # takeWhile is_name_char t"
    by (auto split: list.splits if_splits)
  have "list_all is_name_char (takeWhile is_name_char t)"
    by (auto simp add: list_all_iff dest: set_takeWhileD)
  with c n have ident: "is_identifier n" by (simp add: is_identifier_def)
  have "t = takeWhile is_name_char t @ dropWhile is_name_char t" by simp
  with drop de have "t = takeWhile is_name_char t @ ''}}'' @ rest" by simp
  with ab n have "a # b # c # t = ''{{'' @ n @ ''}}'' @ rest" by simp
  with ident show ?case by simp
qed simp_all

lemma match_here_complete:
  assumes "is_identifier n"
  shows "match_here (''{{'' @ n @ ''}}'' @ rest) = Some (n, rest)"
proof -
  from assms obtain c cs where n: "n = c # cs" and c: "is_name_start c"
    and cs: "\<And>x. x \<in> set cs \<Longrightarrow> is_name_char x"
    by (cases n) (auto simp add: is_identifier_def list_all_iff)
  have tw: "takeWhile is_name_char (cs @ ''}}'' @ rest) = cs"
    using cs by (simp add: takeWhile_append2)
  have dw: "dropWhile is_name_char (cs @ ''}}'' @ rest) = ''}}'' @ rest"
    using cs by (simp add: dropWhile_append2)
  have "match_here (CHR ''{'' # CHR ''{'' # c # (cs @ ''}}'' @ rest)) = Some (c # cs, rest)"
    unfolding match_here_greedy using c tw dw by simp
  then show ?thesis by (simp add: n)
qed

lemma match_here_iff:
  "match_here s = Some (n, rest) \<longleftrightarrow> is_identifier n \<and> s = ''{{'' @ n @ ''}}'' @ rest"
  using match_here_sound match_here_complete by blast

lemma placeholders_Cons: "n \<in> placeholders t \<Longrightarrow> n \<in> placeholders (c # t)"
proof -
  assume "n \<in> placeholders t"
  then obtain pre post where "is_identifier n" "t = pre @ ''{{'' @ n @ ''}}'' @ post"
    by (auto simp add: placeholders_def)
  then have "is_identifier n \<and> c # t = (c # pre) @ ''{{'' @ n @ ''}}'' @ post" by simp
  then show ?thesis unfolding placeholders_def by blast
qed

lemma placeholders_after:
  assumes "n \<in> placeholders rest"
  shows "n \<in> placeholders (front @ rest)"
  using assms by (induction front) (simp_all add: placeholders_Cons)

lemma findall_sound: "n \<in> set (findall s) \<Longrightarrow> n \<in> placeholders s"
proof (induction s rule: findall.induct)
  case 1
  then show ?case by simp
next
  case (2 c t)
  show ?case
  proof (cases "match_here (c # t)")
    case None
    with "2.prems" have "n \<in> set (findall t)" by simp
    with "2.IH"(1) None have "n \<in> placeholders t" by simp
    then show ?thesis by (rule placeholders_Cons)
  next
    case (Some r)
    obtain g rest where r: "r = (g, rest)" by (cases r)
    from Some r have m: "match_here (c # t) = Some (g, rest)" by simp
    then have g: "is_identifier g" and s: "c # t = ''{{'' @ g @ ''}}'' @ rest"
      using match_here_sound by blast+
    from "2.prems" m have "n = g \<or> n \<in> set (findall rest)" by simp
    then show ?thesis
    proof
      assume "n = g"
      with g s have "is_identifier n \<and> c # t = [] @ ''{{'' @ n @ ''}}'' @ rest" by simp
      then show ?thesis unfolding placeholders_def by blast
    next
      assume "n \<in> set (findall rest)"
      with "2.IH"(2) [OF m refl] have "n \<in> placeholders rest" by simp
      then have "n \<in> placeholders ((''{{'' @ g @ ''}}'') @ rest)"
        by (rule placeholders_after)
      with s show ?thesis by simp
    qed
  qed
qed

lemma no_overlap:
  assumes g: "is_identifier g"
    and eq: "''{{'' @ g @ ''}}'' @ rest = pre @ ''{{'' @ tail"
    and pre: "pre \<noteq> []"
  shows "\<exists>pre'. rest = pre' @ ''{{'' @ tail"
proof -
  let ?X = "''{{'' @ g @ ''}}''"
  from eq have "?X @ rest = pre @ (''{{'' @ tail)" by simp
  then obtain us where
    us: "(?X = pre @ us \<and> us @ rest = ''{{'' @ tail) \<or> (?X @ us = pre \<and> rest = us @ ''{{'' @ tail)"
    unfolding append_eq_append_conv2 by blast
  show ?thesis
  proof (cases "?X @ us = pre \<and> rest = us @ ''{{'' @ tail")
    case True
    then show ?thesis by blast
  next
    case False
    with us have X: "?X = pre @ us" and Y: "us @ rest = ''{{'' @ tail" by blast+
    show ?thesis
    proof (cases us)
      case Nil
      with Y show ?thesis by simp
    next
      case (Cons u us')
      with Y have u: "u = CHR ''{''" by simp
      from g obtain g0 g' where gg: "g = g0 # g'" and g0: "is_name_start g0"
        by (cases g) (auto simp add: is_identifier_def)
      from pre X obtain pre1 where X1: "CHR ''{'' # g @ ''}}'' = pre1 @ us"
        by (cases pre) auto
      show ?thesis
      proof (cases pre1)
        case Nil
        with X1 Cons gg have "us' = g0 # g' @ ''}}''" by simp
        with Y Cons have "g0 = CHR ''{''" by simp
        with g0 show ?thesis by simp
      next
        case (Cons q pre2)
        with X1 have "g @ ''}}'' = pre2 @ us" by simp
        then have "set us \<subseteq> set (g @ ''}}'')" by (metis set_append Un_upper2)
        with \<open>us = u # us'\<close> have "u \<in> set g \<or> u = CHR ''}''" by auto
        with u g have False by (auto dest: identifier_chars)
        then show ?thesis ..
      qed
    qed
  qed
qed

lemma findall_complete:
  assumes "is_identifier n"
  shows "s = pre @ ''{{'' @ n @ ''}}'' @ post \<Longrightarrow> n \<in> set (findall s)"
proof (induction s arbitrary: pre rule: findall.induct)
  case 1
  then show ?case by simp
next
  case (2 c t)
  show ?case
  proof (cases "match_here (c # t)")
    case None
    have "pre \<noteq> []"
    proof
      assume "pre = []"
      with "2.prems" have "match_here (c # t) = Some (n, post)"
        using match_here_complete [OF assms, of post] by simp
      with None show False by simp
    qed
    then obtain p pre' where "pre = p # pre'" by (cases pre) auto
    with "2.prems" have "t = pre' @ ''{{'' @ n @ ''}}'' @ post" by simp
    from "2.IH"(1) [OF None this] None show ?thesis by simp
  next
    case (Some r)
    obtain g rest where r: "r = (g, rest)" by (cases r)
    from Some r have m: "match_here (c # t) = Some (g, rest)" by simp
    then have g: "is_identifier g" and s: "c # t = ''{{'' @ g @ ''}}'' @ rest"
      using match_here_sound by blast+
    show ?thesis
    proof (cases "pre = []")
      case True
      with "2.prems" have "match_here (c # t) = Some (n, post)"
        using match_here_complete [OF assms, of post] by simp
      with m have "g = n" by simp
      with m show ?thesis by simp
    next
      case False
      from s "2.prems" have "''{{'' @ g @ ''}}'' @ rest = pre @ ''{{'' @ (n @ ''}}'' @ post)"
        by simp
      from no_overlap [OF g this False] obtain pre' where
        "rest = pre' @ ''{{'' @ n @ ''}}'' @ post" by auto
      from "2.IH"(2) [OF m refl this] m show ?thesis by simp
    qed
  qed
qed

lemma findall_placeholders: "set (findall s) = placeholders s"
proof (rule set_eqI)
  fix n
  show "n \<in> set (findall s) \<longleftrightarrow> n \<in> placeholders s"
  proof
    assume "n \<in> set (findall s)"
    then show "n \<in> placeholders s" by (rule findall_sound)
  next
    assume "n \<in> placeholders s"
    then obtain pre post where "is_identifier n" and "s = pre @ ''{{'' @ n @ ''}}'' @ post"
      by (auto simp add: placeholders_def)
    then show "n \<in> set (findall s)" by (rule findall_complete)
  qed
qed

text \<open>
  Claim C4. For every string, \<^verbatim>\<open>_extract_template_variables\<close> returns exactly the set of
  the identifiers that occur in it between two opening and two closing braces, an
  identifier being a letter or an underscore followed by letters, digits, underscores and
  hyphens. For every input that is not a string it returns the empty set. It is a total
  function into sets: no input makes it raise. Braces that are unbalanced, empty or not
  closed contribute nothing; in particular \<^verbatim>\<open>{invalid}\<close> yields the empty set, the text
  \<^verbatim>\<open>{{a}}{{b}}\<close> yields the set of \<^verbatim>\<open>a\<close> and \<^verbatim>\<open>b\<close>, and the malformed text of the unit
  tests yields the empty set.
\<close>

theorem extract_template_variables_exact:
  "(\<forall>s. extract_template_variables (DStr s) = placeholders s)
   \<and> extract_template_variables DNone = {}
   \<and> (\<forall>b. extract_template_variables (DBool b) = {})
   \<and> (\<forall>i. extract_template_variables (DInt i) = {})
   \<and> (\<forall>f. extract_template_variables (DFloat f) = {})
   \<and> (\<forall>items. extract_template_variables (DList items) = {})
   \<and> (\<forall>kvs. extract_template_variables (DDict kvs) = {})
   \<and> extract_template_variables (DStr ''{invalid}'') = {}
   \<and> extract_template_variables (DStr ''{{a}}{{b}}'') = {''a'', ''b''}
   \<and> extract_template_variables (DStr ''/results/{dataset}/{{}/{{incomplete}/output.xml'') = {}"
proof -
  have strings: "\<forall>s. extract_template_variables (DStr s) = placeholders s"
    by (simp add: findall_placeholders)
  have invalid: "findall ''{invalid}'' = []"
    by simp
  have both: "findall ''{{a}}{{b}}'' = [''a'', ''b'']"
    by (simp add: is_name_start_def is_name_char_def)
  have malformed: "findall ''/results/{dataset}/{{}/{{incomplete}/output.xml'' = []"
    by (simp add: is_name_start_def is_name_char_def)
  from strings invalid both malformed show ?thesis
    by (simp del: findall.simps)
qed

lemma finite_placeholders: "finite (placeholders s)"
  using findall_placeholders [of s, symmetric] by simp

lemma collect_is_union_of_leaves:
  "collect_template_variables d u = u \<union> (\<Union>s \<in> set (string_leaves d). placeholders s)"
  "collect_items items u = u \<union> (\<Union>s \<in> set (leaves_of_items items). placeholders s)"
  "collect_values kvs u = u \<union> (\<Union>s \<in> set (leaves_of_values kvs). placeholders s)"
proof (induction d u and items u and kvs u
    rule: collect_template_variables_collect_items_collect_values.induct)
  case (3 str used_variables)
  show ?case by (simp add: findall_placeholders)
qed auto

lemma collect_workflow:
  "collect_template_variables (DDict workflow) {} = used_placeholders workflow"
  by (simp only: collect_is_union_of_leaves used_placeholders_def) simp

lemma finite_used_placeholders: "finite (used_placeholders workflow)"
  by (simp add: used_placeholders_def finite_placeholders)

lemma finite_available_names: "finite (available_names workflow)"
  by (simp add: available_names_def matrix_keys_def split: option.splits doc.splits)

lemma available_variables_mapping:
  assumes "matrix_is_mapping workflow"
  shows "available_variables workflow = Inr (available_names workflow)"
  using assms
  by (auto simp add: matrix_is_mapping_def available_variables_def available_names_def
      matrix_keys_def split: option.splits doc.splits)

lemma py_sorted_props:
  assumes "finite S"
  shows "sorted (py_sorted S) \<and> distinct (py_sorted S) \<and> set (py_sorted S) = S"
  using assms by (simp add: py_sorted_def)

text \<open>
  Claim C3, amended. For every workflow document whose matrix, when there is one, is a
  mapping, template validation takes as available the names \<^verbatim>\<open>id\<close> and
  \<^verbatim>\<open>description\<close> together with the keys of the matrix, collects the placeholders of all
  string leaves of the document, and raises exactly when some used name is not available.
  The message then holds the full list of the unknown names and the full list of the
  available names, each in ascending lexicographic order and without repetition. When
  every used name is available, nothing is raised.
\<close>

theorem validate_template_variables_exact:
  assumes "matrix_is_mapping workflow"
  shows "\<exists>unknown_list available_list.
           unknown_list = py_sorted (used_placeholders workflow - available_names workflow)
         \<and> sorted unknown_list \<and> distinct unknown_list
         \<and> set unknown_list = used_placeholders workflow - available_names workflow
         \<and> available_list = py_sorted (available_names workflow)
         \<and> sorted available_list \<and> distinct available_list
         \<and> set available_list = available_names workflow
         \<and> validate_template_variables repr workflow =
             (if used_placeholders workflow - available_names workflow = {} then Inr ()
              else Inl (WorkflowExecutionError
                     (''Unknown template variables: '' @ list_repr repr unknown_list
                        @ ''. Available variables: '' @ list_repr repr available_list)))"
proof -
  let ?unknown = "used_placeholders workflow - available_names workflow"
  have fin_u: "finite ?unknown"
    using finite_used_placeholders by simp
  have run: "validate_template_variables repr workflow =
      (if ?unknown = {} then Inr ()
       else Inl (WorkflowExecutionError
              (''Unknown template variables: '' @ list_repr repr (py_sorted ?unknown)
                 @ ''. Available variables: ''
                 @ list_repr repr (py_sorted (available_names workflow)))))"
    unfolding validate_template_variables_def available_variables_mapping [OF assms]
      collect_workflow
    by (simp add: Let_def)
  from py_sorted_props [OF fin_u] py_sorted_props [OF finite_available_names [of workflow]] run
  show ?thesis by blast
qed

text \<open>
  Claim C3 says that for every workflow document template validation raises exactly when
  a used name is not available. In the workflow below the matrix key is present and its
  value is \<^verbatim>\<open>None\<close>: no placeholder is used, so no name is unknown, and yet the
  validation raises, an \<^verbatim>\<open>AttributeError\<close> from the call of \<^verbatim>\<open>keys\<close>.
\<close>

theorem validate_template_variables_null_matrix:
  "used_placeholders workflow_null_matrix - available_names workflow_null_matrix = {}
   \<and> validate_template_variables repr_plain workflow_null_matrix
         = Inl (AttributeError
                  ([CHR 0x27] @ ''NoneType'' @ [CHR 0x27] @ '' object has no attribute ''
                     @ [CHR 0x27] @ ''keys'' @ [CHR 0x27]))
   \<and> validate_template_variables repr_plain workflow_null_matrix \<noteq> Inr ()"
proof -
  have used: "used_placeholders workflow_null_matrix = {}"
    by (simp add: used_placeholders_def workflow_null_matrix_def findall_placeholders [symmetric])
  have avail: "available_variables workflow_null_matrix
         = Inl (AttributeError
                  ([CHR 0x27] @ ''NoneType'' @ [CHR 0x27] @ '' object has no attribute ''
                     @ [CHR 0x27] @ ''keys'' @ [CHR 0x27]))"
    by (simp add: available_variables_def workflow_null_matrix_def)
  have run: "validate_template_variables repr_plain workflow_null_matrix
         = Inl (AttributeError
                  ([CHR 0x27] @ ''NoneType'' @ [CHR 0x27] @ '' object has no attribute ''
                     @ [CHR 0x27] @ ''keys'' @ [CHR 0x27]))"
    unfolding validate_template_variables_def avail by simp
  from used run show ?thesis by simp
qed

lemma scenario_matrix_is_mapping: "matrix_is_mapping workflow_unknown_var"
  by (simp add: matrix_is_mapping_def workflow_unknown_var_def)

lemma scenario_used: "used_placeholders workflow_unknown_var = {''unknown_var'', ''dataset''}"
  by (simp add: used_placeholders_def workflow_unknown_var_def findall_placeholders [symmetric]
      is_name_start_def is_name_char_def)

lemma scenario_available:
  "available_names workflow_unknown_var = {''id'', ''description'', ''dataset''}"
  by (auto simp add: available_names_def matrix_keys_def workflow_unknown_var_def)

lemma scenario_unknown:
  "used_placeholders workflow_unknown_var - available_names workflow_unknown_var
     = {''unknown_var''}"
  unfolding scenario_used scenario_available by auto

lemma scenario_available_sorted:
  "py_sorted {''id'', ''description'', ''dataset''} = [''dataset'', ''description'', ''id'']"
proof -
  have "sorted [''dataset'', ''description'', ''id'']
        \<and> distinct [''dataset'', ''description'', ''id'']"
    by simp
  then have "sorted_list_of_set (set [''dataset'', ''description'', ''id''])
             = [''dataset'', ''description'', ''id'']"
    by (simp only: sorted_list_of_set.idem_if_sorted_distinct)
  moreover have "set [''dataset'', ''description'', ''id''] = {''id'', ''description'', ''dataset''}"
    by auto
  ultimately show ?thesis by (simp only: py_sorted_def)
qed

text \<open>
  The scenario of the specification: a matrix with the variable \<^verbatim>\<open>dataset\<close> and a step
  template that also uses \<^verbatim>\<open>unknown_var\<close>.
\<close>

theorem validate_template_variables_exact_witness:
  "validate_template_variables repr_plain workflow_unknown_var
     = Inl (WorkflowExecutionError
         ''Unknown template variables: ['unknown_var']. Available variables: ['dataset', 'description', 'id']'')"
proof -
  from validate_template_variables_exact [OF scenario_matrix_is_mapping, of repr_plain]
  obtain unknown_list available_list where
    ul: "unknown_list
           = py_sorted (used_placeholders workflow_unknown_var - available_names workflow_unknown_var)"
    and al: "available_list = py_sorted (available_names workflow_unknown_var)"
    and run: "validate_template_variables repr_plain workflow_unknown_var =
             (if used_placeholders workflow_unknown_var - available_names workflow_unknown_var = {}
              then Inr ()
              else Inl (WorkflowExecutionError
                     (''Unknown template variables: '' @ list_repr repr_plain unknown_list
                        @ ''. Available variables: '' @ list_repr repr_plain available_list)))"
    by blast
  from ul have ul': "unknown_list = [''unknown_var'']"
    by (simp add: scenario_unknown py_sorted_def)
  from al have al': "available_list = [''dataset'', ''description'', ''id'']"
    by (simp only: scenario_available scenario_available_sorted)
  from run show ?thesis
    unfolding scenario_unknown ul' al'
    by (simp add: list_repr_def repr_plain_def)
qed

text \<open>
  Claim C6. For every input on which the loader or the structural validator raises
  \<^verbatim>\<open>WorkflowValidationError\<close>, \<^verbatim>\<open>parse_workflow\<close> raises \<^verbatim>\<open>WorkflowExecutionError\<close> and
  the message of the latter contains the message of the former: it is the text
  \<^verbatim>\<open>Workflow validation failed: \<close> followed by it.
\<close>

theorem parse_workflow_wraps_validation_error:
  assumes "load_workflow_file workflow_path = Inl (WorkflowValidationError msg)
           \<or> (\<exists>workflow. load_workflow_file workflow_path = Inr workflow
                 \<and> validate_workflow workflow = Inl (WorkflowValidationError msg))"
  shows "\<exists>message.
           parse_workflow load_workflow_file validate_workflow repr workflow_path
             = Inl (WorkflowExecutionError message)
         \<and> message = ''Workflow validation failed: '' @ msg
         \<and> (\<exists>pre post. message = pre @ msg @ post)"
proof -
  let ?message = "''Workflow validation failed: '' @ msg"
  have run: "parse_workflow load_workflow_file validate_workflow repr workflow_path
               = Inl (WorkflowExecutionError ?message)"
    using assms
  proof
    assume "load_workflow_file workflow_path = Inl (WorkflowValidationError msg)"
    then show ?thesis by (simp add: parse_workflow_def)
  next
    assume "\<exists>workflow. load_workflow_file workflow_path = Inr workflow
                 \<and> validate_workflow workflow = Inl (WorkflowValidationError msg)"
    then obtain workflow where "load_workflow_file workflow_path = Inr workflow"
      and "validate_workflow workflow = Inl (WorkflowValidationError msg)" by blast
    then show ?thesis by (simp add: parse_workflow_def)
  qed
  have "?message = ''Workflow validation failed: '' @ msg @ []" by simp
  then have "\<exists>pre post. ?message = pre @ msg @ post" by blast
  with run show ?thesis by blast
qed

text \<open>The structural validator rejects a workflow that has no steps.\<close>

theorem parse_workflow_wraps_validation_error_witness:
  "parse_workflow
     (\<lambda>path. Inr [(''name'', DStr ''Test'')])
     (\<lambda>workflow. Inl (WorkflowValidationError ''Missing steps field''))
     repr_plain ''/path/to/workflow.yml''
   = Inl (WorkflowExecutionError ''Workflow validation failed: Missing steps field'')"
proof -
  let ?load = "\<lambda>path :: string. (Inr [(''name'', DStr ''Test'')] :: exn + (string \<times> doc) list)"
  let ?validate = "\<lambda>workflow :: (string \<times> doc) list.
                     (Inl (WorkflowValidationError ''Missing steps field'') :: exn + bool)"
  have h: "?load ''/path/to/workflow.yml'' = Inl (WorkflowValidationError ''Missing steps field'')
           \<or> (\<exists>workflow. ?load ''/path/to/workflow.yml'' = Inr workflow
                 \<and> ?validate workflow = Inl (WorkflowValidationError ''Missing steps field''))"
    by simp
  from parse_workflow_wraps_validation_error [of ?load _ _ ?validate, OF h]
  show ?thesis by simp
qed

text \<open>
  Claim C5 says that \<^verbatim>\<open>parse_workflow\<close>, after loading, structural validation and template
  validation, has the action registry validate the \<^verbatim>\<open>uses\<close> references of the workflow and
  raises when it reports any, so that no workflow with a failing reference is returned.
  The function in \<^verbatim>\<open>workflow.py\<close> makes no such call, and the executor holds no
  registry. Here a workflow whose only step uses an action that the index does not hold,
  and which the loader and the structural validator accept, is returned as the result.
\<close>

theorem parse_workflow_returns_unknown_action:
  "invalid_uses [] workflow_unknown_action = [''no_such_action'']
   \<and> parse_workflow (\<lambda>path. Inr workflow_unknown_action) (\<lambda>workflow. Inr True)
        repr_plain ''workflow.yml''
     = Inr workflow_unknown_action"
proof -
  have refs: "invalid_uses [] workflow_unknown_action = [''no_such_action'']"
    by (simp add: invalid_uses_def workflow_unknown_action_def)
  have used: "collect_template_variables (DDict workflow_unknown_action) {} = {''id''}"
    by (simp add: workflow_unknown_action_def is_name_start_def is_name_char_def)
  have avail: "available_variables workflow_unknown_action = Inr {''id'', ''description''}"
    by (simp add: available_variables_def workflow_unknown_action_def)
  have "validate_template_variables repr_plain workflow_unknown_action = Inr ()"
    unfolding validate_template_variables_def avail used by simp
  then have "parse_workflow (\<lambda>path. Inr workflow_unknown_action) (\<lambda>workflow. Inr True)
        repr_plain ''workflow.yml'' = Inr workflow_unknown_action"
    by (simp add: parse_workflow_def)
  with refs show ?thesis by simp
qed


end
